theory Spec2Isabelle
  imports Main "HOL-Library.Word" "HOL-Library.AList" "HOL-Library.Sublist"
begin

section \<open>Identifiers: generation and validation\<close>

text \<open>
  A Python \<open>str\<close> is modelled as a HOL \<open>string\<close>. The identifier grammar only
  admits ASCII characters, so on every string the validator accepts a HOL character
  is one Python character and the two lengths coincide.
\<close>

subsection \<open>The validator (\<open>is_valid_content_id\<close>)\<close>

text \<open>
  The source is \<^verbatim>\<open>bool(re.match(r'^[A-Za-z0-9_-]{8,}$', content_id))\<close>.
  \<open>id_char\<close> is the character class \<^verbatim>\<open>[A-Za-z0-9_-]\<close>, by code point.
\<close>

definition id_char :: "char \<Rightarrow> bool" where
  "id_char c =
     (let n = (of_char c :: nat)
      in (65 \<le> n \<and> n \<le> 90) \<or> (97 \<le> n \<and> n \<le> 122) \<or> (48 \<le> n \<and> n \<le> 57)
         \<or> c = CHR ''_'' \<or> c = CHR ''-'')"

text \<open>
  Python's \<^verbatim>\<open>$\<close> (without \<^verbatim>\<open>re.MULTILINE\<close>) matches at the end of the string and
  also just before a newline that is the last character of the string. The argument
  is what is left of the subject at the position where \<^verbatim>\<open>$\<close> is tried.
\<close>

definition at_dollar :: "string \<Rightarrow> bool" where
  "at_dollar rest = (rest = [] \<or> rest = [CHR 0x0A])"

text \<open>
  \<^verbatim>\<open>re.match\<close> anchors at the start; the quantifier \<^verbatim>\<open>{8,}\<close> greedily takes the
  longest run of class characters. Giving characters back cannot help, because the
  position would then be followed by a class character, where \<^verbatim>\<open>$\<close> never matches.
\<close>

definition is_valid_content_id :: "string \<Rightarrow> bool" where
  "is_valid_content_id content_id =
     (8 \<le> length (takeWhile id_char content_id) \<and> at_dollar (dropWhile id_char content_id))"

text \<open>
  The identifier grammar in the words of the specification (section 4.2): characters
  from \<^verbatim>\<open>[A-Za-z0-9_-]\<close> only, at least eight of them. It is what the validator
  is compared with; the program does not use it.
\<close>

definition grammar_id :: "string \<Rightarrow> bool" where
  "grammar_id s = (8 \<le> length s \<and> list_all id_char s)"

subsection \<open>The generator (\<open>generate_unique_id\<close>)\<close>

text \<open>
  The source is \<^verbatim>\<open>secrets.token_urlsafe(8)\<close>, which the standard library defines as
  \<^verbatim>\<open>base64.urlsafe_b64encode(token_bytes(8)).rstrip(b'=').decode('ascii')\<close>.
  The operating system's random source is a parameter: an unbounded supply of bytes,
  of which \<open>token_bytes n\<close> takes the first \<open>n\<close>.
\<close>

type_synonym byte = "8 word"
type_synonym entropy = "nat \<Rightarrow> byte"

definition token_bytes :: "nat \<Rightarrow> entropy \<Rightarrow> byte list" where
  "token_bytes n src = map src [0..<n]"

definition urlsafe_alphabet :: string where
  "urlsafe_alphabet =
     ''ABCDEFGHIJKLMNOPQRSTUVWXYZabcdefghijklmnopqrstuvwxyz0123456789-_''"

definition b64char :: "nat \<Rightarrow> char" where
  "b64char i = urlsafe_alphabet ! i"

text \<open>
  Base64 maps each group of three bytes to four six-bit digits; a last group of two
  bytes gives three digits and one padding character, a last single byte two digits
  and two padding characters.
\<close>

fun urlsafe_b64encode :: "byte list \<Rightarrow> string" where
  "urlsafe_b64encode [] = []"
| "urlsafe_b64encode [a] =
     [b64char (unat a div 4), b64char ((unat a mod 4) * 16), CHR ''='', CHR ''='']"
| "urlsafe_b64encode [a, b] =
     [b64char (unat a div 4), b64char ((unat a mod 4) * 16 + unat b div 16),
      b64char ((unat b mod 16) * 4), CHR ''='']"
| "urlsafe_b64encode (a # b # c # rest) =
     [b64char (unat a div 4), b64char ((unat a mod 4) * 16 + unat b div 16),
      b64char ((unat b mod 16) * 4 + unat c div 64), b64char (unat c mod 64)]
     @ urlsafe_b64encode rest"

definition rstrip :: "char \<Rightarrow> string \<Rightarrow> string" where
  "rstrip c s = rev (dropWhile (\<lambda>x. x = c) (rev s))"

definition token_urlsafe :: "nat \<Rightarrow> entropy \<Rightarrow> string" where
  "token_urlsafe n src = rstrip (CHR ''='') (urlsafe_b64encode (token_bytes n src))"

definition generate_unique_id :: "entropy \<Rightarrow> string" where
  "generate_unique_id src = token_urlsafe 8 src"

section \<open>The persistence medium\<close>

text \<open>
  The store keeps one JSON document in a file. \<open>json\<close> is what \<^verbatim>\<open>json.load\<close>
  returns: a JSON object becomes a Python dict, which keeps its entries in insertion
  order and is modelled as an association list. The records of this program hold
  integers and strings; numbers with a fraction are not part of the model.
\<close>

datatype json =
    JNull
  | JBool bool
  | JInt int
  | JStr string
  | JList "json list"
  | JObj "(string \<times> json) list"

text \<open>
  A file's text is kept by what \<^verbatim>\<open>json.load\<close> makes of it: \<open>Parsable j\<close> is a text
  that decodes to \<open>j\<close> (and is what \<^verbatim>\<open>json.dump\<close> writes for \<open>j\<close>), \<open>Corrupt s\<close> is
  the text \<open>s\<close>, on which \<^verbatim>\<open>json.load\<close> raises \<^verbatim>\<open>JSONDecodeError\<close>. A path names
  no file, a regular file, or a file that cannot be opened (\<open>NoAccess\<close>).
\<close>

datatype content = Parsable json | Corrupt string

datatype node = File content | NoAccess

type_synonym fs = "string \<rightharpoonup> node"

text \<open>
  The exceptions of the program. \<open>FileNotFoundError\<close> and \<open>OtherOSError\<close> (any
  other \<^verbatim>\<open>OSError\<close>, such as \<^verbatim>\<open>PermissionError\<close>) are the instances of Python's
  \<^verbatim>\<open>IOError\<close>; the last three are the classes the source declares.
\<close>

datatype exn =
    FileNotFoundError
  | OtherOSError
  | JSONDecodeError
  | TypeError
  | KeyError
  | ContentNotFoundError
  | StorageError
  | InvalidDeepLinkError

definition is_IOError :: "exn \<Rightarrow> bool" where
  "is_IOError e = (e = FileNotFoundError \<or> e = OtherOSError)"

text \<open>
  Reading is decided by the state of the file system. Writing can also fail for
  reasons outside it (a full disk, a device error), so each write takes its outcome
  as an argument: it completes, it is refused before the file is opened, or it breaks
  after \<^verbatim>\<open>open(path, 'w')\<close> has truncated the file, leaving what had been written.
\<close>

datatype 'a outcome = Completes | Refused | Breaks 'a

text \<open>\<^verbatim>\<open>with open(path, 'r') as f: json.load(f)\<close>\<close>

definition read_json :: "fs \<Rightarrow> string \<Rightarrow> exn + json" where
  "read_json fs path =
     (case fs path of
        None \<Rightarrow> Inl FileNotFoundError
      | Some NoAccess \<Rightarrow> Inl OtherOSError
      | Some (File (Corrupt s)) \<Rightarrow> Inl JSONDecodeError
      | Some (File (Parsable j)) \<Rightarrow> Inr j)"

text \<open>
  \<^verbatim>\<open>with open(path, 'w') as f: json.dump(j, f)\<close>. A dump that breaks leaves the
  beginning \<open>s\<close> of a JSON document, which does not parse.
\<close>

definition write_json :: "string outcome \<Rightarrow> fs \<Rightarrow> string \<Rightarrow> json \<Rightarrow> fs \<times> (exn + unit)" where
  "write_json w fs path j =
     (if fs path = Some NoAccess then (fs, Inl OtherOSError)
      else (case w of
              Completes \<Rightarrow> (fs(path \<mapsto> File (Parsable j)), Inr ())
            | Refused \<Rightarrow> (fs, Inl OtherOSError)
            | Breaks s \<Rightarrow> (fs(path \<mapsto> File (Corrupt s)), Inl OtherOSError)))"

text \<open>\<^verbatim>\<open>shutil.copy(src, dst)\<close>, which overwrites \<open>dst\<close>.\<close>

definition copy_file :: "content outcome \<Rightarrow> fs \<Rightarrow> string \<Rightarrow> string \<Rightarrow> fs \<times> (exn + unit)" where
  "copy_file w fs src dst =
     (case fs src of
        None \<Rightarrow> (fs, Inl FileNotFoundError)
      | Some NoAccess \<Rightarrow> (fs, Inl OtherOSError)
      | Some (File c) \<Rightarrow>
          (if fs dst = Some NoAccess then (fs, Inl OtherOSError)
           else (case w of
                   Completes \<Rightarrow> (fs(dst \<mapsto> File c), Inr ())
                 | Refused \<Rightarrow> (fs, Inl OtherOSError)
                 | Breaks c' \<Rightarrow> (fs(dst \<mapsto> File c'), Inl OtherOSError))))"

subsection \<open>Python's operations on the decoded document\<close>

text \<open>\<^verbatim>\<open>sub in s\<close> on strings: \<open>sub\<close> occurs in \<open>s\<close>.\<close>

fun str_in :: "string \<Rightarrow> string \<Rightarrow> bool" where
  "str_in sub [] = (sub = [])"
| "str_in sub (c # cs) = (prefix sub (c # cs) \<or> str_in sub cs)"

text \<open>
  \<^verbatim>\<open>key in data\<close>: key membership on a dict, element membership on a list, substring
  on a string, \<^verbatim>\<open>TypeError\<close> on \<^verbatim>\<open>None\<close>, a bool or a number.
\<close>

fun py_in :: "string \<Rightarrow> json \<Rightarrow> exn + bool" where
  "py_in key (JObj kvs) = Inr (key \<in> set (map fst kvs))"
| "py_in key (JList xs) = Inr (JStr key \<in> set xs)"
| "py_in key (JStr s) = Inr (str_in key s)"
| "py_in key _ = Inl TypeError"

text \<open>\<^verbatim>\<open>data[key]\<close> with a string key: only a dict can be indexed by a string.\<close>

fun getitem :: "json \<Rightarrow> string \<Rightarrow> exn + json" where
  "getitem (JObj kvs) key = (case map_of kvs key of None \<Rightarrow> Inl KeyError | Some v \<Rightarrow> Inr v)"
| "getitem _ key = Inl TypeError"

text \<open>
  \<^verbatim>\<open>data[key] = v\<close>: a dict replaces the value of a key it has, in place, and appends
  a new key at the end; every other value raises \<^verbatim>\<open>TypeError\<close>.
\<close>

fun setitem :: "json \<Rightarrow> string \<Rightarrow> json \<Rightarrow> exn + json" where
  "setitem (JObj kvs) key v = Inr (JObj (AList.update key v kvs))"
| "setitem _ key v = Inl TypeError"

section \<open>The content store (\<open>ContentStore\<close>)\<close>

record ContentStore =
  filepath :: string

text \<open>The entry \<open>save_content\<close> stores; \<open>now\<close> is \<^verbatim>\<open>datetime.now().isoformat()\<close>.\<close>

definition content_record :: "int \<Rightarrow> int \<Rightarrow> string \<Rightarrow> json" where
  "content_record chat_id message_id now =
     JObj [(''chat_id'', JInt chat_id), (''message_id'', JInt message_id),
           (''created_at'', JStr now)]"

text \<open>
  \<open>_ensure_file_exists\<close>. The two handlers run inside the \<^verbatim>\<open>except\<close> clauses, so an
  exception of theirs is not caught; neither is an \<^verbatim>\<open>OSError\<close> of the first
  \<^verbatim>\<open>open\<close> other than \<^verbatim>\<open>FileNotFoundError\<close>.
\<close>

definition ensure_file_exists ::
  "content outcome \<Rightarrow> string outcome \<Rightarrow> fs \<Rightarrow> ContentStore \<Rightarrow> fs \<times> (exn + unit)" where
  "ensure_file_exists cp wr fs self =
     (case read_json fs (filepath self) of
        Inr j \<Rightarrow> (fs, Inr ())
      | Inl e \<Rightarrow>
          (if e = FileNotFoundError then write_json wr fs (filepath self) (JObj [])
           else if e = JSONDecodeError then
             (case copy_file cp fs (filepath self) (filepath self @ ''.backup'') of
                (fs', Inl e') \<Rightarrow> (fs', Inl e')
              | (fs', Inr u) \<Rightarrow> write_json wr fs' (filepath self) (JObj []))
           else (fs, Inl e)))"

text \<open>\<open>ContentStore.__init__\<close>\<close>

definition new_ContentStore ::
  "content outcome \<Rightarrow> string outcome \<Rightarrow> fs \<Rightarrow> string \<Rightarrow> fs \<times> (exn + ContentStore)" where
  "new_ContentStore cp wr fs path =
     (let self = \<lparr>filepath = path\<rparr>
      in (case ensure_file_exists cp wr fs self of
            (fs', Inl e) \<Rightarrow> (fs', Inl e)
          | (fs', Inr u) \<Rightarrow> (fs', Inr self)))"

definition default_filepath :: string where
  "default_filepath = ''content_store.json''"

text \<open>
  \<open>save_content\<close>: the body of the \<^verbatim>\<open>try\<close>, then the clause
  \<^verbatim>\<open>except (IOError, json.JSONDecodeError)\<close>, which turns these into \<open>StorageError\<close>.
\<close>

definition save_content_body ::
  "string outcome \<Rightarrow> string \<Rightarrow> fs \<Rightarrow> ContentStore \<Rightarrow> string \<Rightarrow> int \<Rightarrow> int \<Rightarrow> fs \<times> (exn + unit)" where
  "save_content_body wr now fs self content_id chat_id message_id =
     (case read_json fs (filepath self) of
        Inl e \<Rightarrow> (fs, Inl e)
      | Inr data \<Rightarrow>
          (case setitem data content_id (content_record chat_id message_id now) of
             Inl e \<Rightarrow> (fs, Inl e)
           | Inr data' \<Rightarrow> write_json wr fs (filepath self) data'))"

definition save_content ::
  "string outcome \<Rightarrow> string \<Rightarrow> fs \<Rightarrow> ContentStore \<Rightarrow> string \<Rightarrow> int \<Rightarrow> int \<Rightarrow> fs \<times> (exn + unit)" where
  "save_content wr now fs self content_id chat_id message_id =
     (case save_content_body wr now fs self content_id chat_id message_id of
        (fs', Inl e) \<Rightarrow>
          (if is_IOError e \<or> e = JSONDecodeError then (fs', Inl StorageError)
           else (fs', Inl e))
      | (fs', Inr u) \<Rightarrow> (fs', Inr u))"

text \<open>
  \<open>get_content\<close>: the body of the \<^verbatim>\<open>try\<close>, then the clauses for
  \<^verbatim>\<open>FileNotFoundError\<close> and \<^verbatim>\<open>json.JSONDecodeError\<close>. The file system is returned
  as the method leaves it.
\<close>

definition get_content_body :: "fs \<Rightarrow> ContentStore \<Rightarrow> string \<Rightarrow> exn + json" where
  "get_content_body fs self content_id =
     (case read_json fs (filepath self) of
        Inl e \<Rightarrow> Inl e
      | Inr data \<Rightarrow>
          (case py_in content_id data of
             Inl e \<Rightarrow> Inl e
           | Inr present \<Rightarrow>
               (if \<not> present then Inl ContentNotFoundError
                else getitem data content_id)))"

definition get_content :: "fs \<Rightarrow> ContentStore \<Rightarrow> string \<Rightarrow> fs \<times> (exn + json)" where
  "get_content fs self content_id =
     (case get_content_body fs self content_id of
        Inl e \<Rightarrow>
          (if e = FileNotFoundError then (fs, Inl StorageError)
           else if e = JSONDecodeError then (fs, Inl StorageError)
           else (fs, Inl e))
      | Inr r \<Rightarrow> (fs, Inr r))"

section \<open>The handlers\<close>

text \<open>
  \<open>handle_private_group_message\<close> (ingestion), up to the point where the link is
  built: \<open>Linked content_id\<close> is the run that reaches the reply with the deep link,
  \<open>IngestRaised e\<close> one whose exception \<open>e\<close> reaches the handler's \<^verbatim>\<open>except\<close> clauses.
  \<open>private_channel_id\<close> is the value of the environment variable.
\<close>

datatype ingest_result = Ignored | Linked string | IngestRaised exn

definition handle_private_group_message ::
  "content outcome \<Rightarrow> string outcome \<Rightarrow> string outcome \<Rightarrow> entropy \<Rightarrow> string \<Rightarrow> fs \<Rightarrow>
   int \<Rightarrow> int \<Rightarrow> int \<Rightarrow> fs \<times> ingest_result" where
  "handle_private_group_message cp wr wr' src now fs private_channel_id chat_id message_id =
     (if chat_id \<noteq> private_channel_id then (fs, Ignored)
      else
        (let content_id = generate_unique_id src
         in (case new_ContentStore cp wr fs default_filepath of
               (fs', Inl e) \<Rightarrow> (fs', IngestRaised e)
             | (fs', Inr store) \<Rightarrow>
                 (case save_content wr' now fs' store content_id chat_id message_id of
                    (fs'', Inl e) \<Rightarrow> (fs'', IngestRaised e)
                  | (fs'', Inr u) \<Rightarrow> (fs'', Linked content_id)))))"

text \<open>
  \<open>handle_start_command\<close> (resolution), up to the point where the record is handed to
  \<^verbatim>\<open>copy_message\<close>: \<open>Resolved r\<close> is the run in which \<open>get_content\<close> returned \<open>r\<close>,
  \<open>InvalidLink\<close> the reply to an identifier the validator rejects.
\<close>

datatype start_result =
    GroupHint
  | ChannelHint
  | Welcome
  | InvalidLink
  | Resolved json
  | StartRaised exn

definition handle_start_command ::
  "content outcome \<Rightarrow> string outcome \<Rightarrow> fs \<Rightarrow> string \<Rightarrow> string list \<Rightarrow> fs \<times> start_result" where
  "handle_start_command cp wr fs chat_type args =
     (if chat_type \<in> set [''group'', ''supergroup''] then (fs, GroupHint)
      else if chat_type = ''channel'' then (fs, ChannelHint)
      else (case args of
              [] \<Rightarrow> (fs, Welcome)
            | content_id # rest \<Rightarrow>
                (if \<not> is_valid_content_id content_id then (fs, InvalidLink)
                 else (case new_ContentStore cp wr fs default_filepath of
                         (fs', Inl e) \<Rightarrow> (fs', StartRaised e)
                       | (fs', Inr store) \<Rightarrow>
                           (case get_content fs' store content_id of
                              (fs'', Inl e) \<Rightarrow> (fs'', StartRaised e)
                            | (fs'', Inr r) \<Rightarrow> (fs'', Resolved r))))))"

text \<open>
  A history of the subsystem: the events handled one after the other, each with the
  outcomes of its writes.
\<close>

datatype event =
    Ingest "content outcome" "string outcome" "string outcome" entropy string int int
  | Start "content outcome" "string outcome" string "string list"

fun step :: "int \<Rightarrow> fs \<Rightarrow> event \<Rightarrow> fs" where
  "step pcid fs (Ingest cp wr wr' src now chat_id message_id) =
     fst (handle_private_group_message cp wr wr' src now fs pcid chat_id message_id)"
| "step pcid fs (Start cp wr chat_type args) =
     fst (handle_start_command cp wr fs chat_type args)"

definition run :: "int \<Rightarrow> fs \<Rightarrow> event list \<Rightarrow> fs" where
  "run pcid fs events = foldl (step pcid) fs events"

text \<open>The keys of the mapping the store file holds, when it holds one.\<close>

definition store_keys :: "fs \<Rightarrow> string list" where
  "store_keys fs =
     (case fs default_filepath of
        Some (File (Parsable (JObj kvs))) \<Rightarrow> map fst kvs
      | _ \<Rightarrow> [])"

text \<open>
  The invariant of the store: if the store file parses, it holds a mapping, and every
  key of that mapping is an identifier of the grammar.
\<close>

fun keys_valid :: "node option \<Rightarrow> bool" where
  "keys_valid (Some (File (Parsable (JObj kvs)))) = list_all grammar_id (map fst kvs)"
| "keys_valid (Some (File (Parsable j))) = False"
| "keys_valid n = True"

definition store_inv :: "fs \<Rightarrow> bool" where
  "store_inv fs = keys_valid (fs default_filepath)"

section \<open>Properties of the identifiers\<close>

lemma urlsafe_alphabet_id_chars: "list_all id_char urlsafe_alphabet"
  by (simp add: urlsafe_alphabet_def id_char_def)

lemma length_urlsafe_alphabet: "length urlsafe_alphabet = 64"
  by (simp add: urlsafe_alphabet_def)

lemma id_char_b64char: "i < 64 \<Longrightarrow> id_char (b64char i)"
  using urlsafe_alphabet_id_chars length_urlsafe_alphabet
  by (simp add: b64char_def list_all_length)

lemma id_char_not_padding: "id_char c \<Longrightarrow> c \<noteq> CHR ''=''"
  by (auto simp: id_char_def)

lemma newline_not_id_char: "\<not> id_char (CHR 0x0A)"
  by (simp add: id_char_def)

text \<open>
  What the validator accepts, exactly: the strings of the grammar, and the strings of
  the grammar followed by one newline.
\<close>

lemma is_valid_content_id_iff:
  "is_valid_content_id s \<longleftrightarrow>
     (8 \<le> length s \<and> list_all id_char s) \<or>
     (\<exists>t. s = t @ [CHR 0x0A] \<and> 8 \<le> length t \<and> list_all id_char t)"
proof
  assume v: "is_valid_content_id s"
  let ?run = "takeWhile id_char s" and ?rest = "dropWhile id_char s"
  have parts: "s = ?run @ ?rest" by simp
  have run: "list_all id_char ?run"
    by (auto simp: list_all_iff dest: set_takeWhileD)
  from v have len: "8 \<le> length ?run" and rest: "?rest = [] \<or> ?rest = [CHR 0x0A]"
    by (simp_all add: is_valid_content_id_def at_dollar_def)
  from rest show "(8 \<le> length s \<and> list_all id_char s) \<or>
     (\<exists>t. s = t @ [CHR 0x0A] \<and> 8 \<le> length t \<and> list_all id_char t)"
  proof
    assume "?rest = []"
    with parts have "?run = s" by simp
    with run len show ?thesis by simp
  next
    assume "?rest = [CHR 0x0A]"
    with parts have "s = ?run @ [CHR 0x0A]" by simp
    with run len show ?thesis by blast
  qed
next
  assume "(8 \<le> length s \<and> list_all id_char s) \<or>
     (\<exists>t. s = t @ [CHR 0x0A] \<and> 8 \<le> length t \<and> list_all id_char t)"
  then show "is_valid_content_id s"
  proof
    assume a: "8 \<le> length s \<and> list_all id_char s"
    then have tw: "takeWhile id_char s = s" and dw: "dropWhile id_char s = []"
      by (simp_all add: list_all_iff)
    show ?thesis
      by (simp add: is_valid_content_id_def at_dollar_def tw dw a)
  next
    assume "\<exists>t. s = t @ [CHR 0x0A] \<and> 8 \<le> length t \<and> list_all id_char t"
    then obtain t where "s = t @ [CHR 0x0A]" "8 \<le> length t" "list_all id_char t"
      by blast
    then show ?thesis
      using newline_not_id_char
      by (simp add: is_valid_content_id_def at_dollar_def list_all_iff
          takeWhile_append2 dropWhile_append2)
  qed
qed

lemma is_valid_content_id_grammar_id:
  "is_valid_content_id s \<longleftrightarrow> grammar_id s \<or> (\<exists>t. s = t @ [CHR 0x0A] \<and> grammar_id t)"
  by (simp add: is_valid_content_id_iff grammar_id_def)

lemma grammar_id_accepted: "grammar_id s \<Longrightarrow> is_valid_content_id s"
  by (simp add: is_valid_content_id_grammar_id)

lemma sextet_bounds:
  fixes a b c :: byte
  shows "unat a div 4 < 64" "(unat a mod 4) * 16 + unat b div 16 < 64"
    "(unat b mod 16) * 4 + unat c div 64 < 64" "unat c mod 64 < 64"
    "(unat b mod 16) * 4 < 64" "(unat a mod 4) * 16 < 64"
proof -
  have "unat a < 256" "unat b < 256" "unat c < 256"
    using unsigned_less [of a] unsigned_less [of b] unsigned_less [of c] by simp_all
  then show "unat a div 4 < 64" "(unat a mod 4) * 16 + unat b div 16 < 64"
    "(unat b mod 16) * 4 + unat c div 64 < 64" "unat c mod 64 < 64"
    "(unat b mod 16) * 4 < 64" "(unat a mod 4) * 16 < 64"
    by linarith+
qed

lemma token_bytes_8:
  "token_bytes 8 src = [src 0, src 1, src 2, src 3, src 4, src 5, src 6, src 7]"
  by (simp add: token_bytes_def upt_rec eval_nat_numeral)

lemma urlsafe_b64encode_8:
  "urlsafe_b64encode [a, b, c, d, e, f, g, h] =
     [b64char (unat a div 4), b64char ((unat a mod 4) * 16 + unat b div 16),
      b64char ((unat b mod 16) * 4 + unat c div 64), b64char (unat c mod 64),
      b64char (unat d div 4), b64char ((unat d mod 4) * 16 + unat e div 16),
      b64char ((unat e mod 16) * 4 + unat f div 64), b64char (unat f mod 64),
      b64char (unat g div 4), b64char ((unat g mod 4) * 16 + unat h div 16),
      b64char ((unat h mod 16) * 4), CHR ''='']"
  by simp

text \<open>Eight bytes give eleven digits and one padding character, which is stripped.\<close>

lemma generate_unique_id_digits:
  "generate_unique_id src =
     [b64char (unat (src 0) div 4), b64char ((unat (src 0) mod 4) * 16 + unat (src 1) div 16),
      b64char ((unat (src 1) mod 16) * 4 + unat (src 2) div 64), b64char (unat (src 2) mod 64),
      b64char (unat (src 3) div 4), b64char ((unat (src 3) mod 4) * 16 + unat (src 4) div 16),
      b64char ((unat (src 4) mod 16) * 4 + unat (src 5) div 64), b64char (unat (src 5) mod 64),
      b64char (unat (src 6) div 4), b64char ((unat (src 6) mod 4) * 16 + unat (src 7) div 16),
      b64char ((unat (src 7) mod 16) * 4)]"
proof -
  have "b64char ((unat (src 7) mod 16) * 4) \<noteq> CHR ''=''"
    by (rule id_char_not_padding [OF id_char_b64char [OF sextet_bounds(5)]])
  then show ?thesis
    unfolding generate_unique_id_def token_urlsafe_def token_bytes_8 urlsafe_b64encode_8
    by (simp add: rstrip_def)
qed

lemma generate_unique_id_shape:
  "length (generate_unique_id src) = 11 \<and> list_all id_char (generate_unique_id src)"
  unfolding generate_unique_id_digits by (simp add: id_char_b64char sextet_bounds)

lemma grammar_id_generate_unique_id: "grammar_id (generate_unique_id src)"
  using generate_unique_id_shape [of src] by (simp add: grammar_id_def)

lemma generate_unique_id_accepted: "is_valid_content_id (generate_unique_id src)"
  by (rule grammar_id_accepted [OF grammar_id_generate_unique_id])

text \<open>
  Claim C7. Whatever bytes the random source supplies, the identifier that
  \<open>generate_unique_id\<close> returns has eleven characters (so at least eleven), all of
  them in the class \<^verbatim>\<open>[A-Za-z0-9_-]\<close>, and \<open>is_valid_content_id\<close> accepts it.
\<close>

theorem generate_unique_id_valid:
  "11 \<le> length (generate_unique_id src)
   \<and> list_all id_char (generate_unique_id src)
   \<and> is_valid_content_id (generate_unique_id src)"
  using generate_unique_id_shape [of src] generate_unique_id_accepted [of src] by simp

theorem generate_unique_id_valid_witness:
  "11 \<le> length (generate_unique_id (\<lambda>i. 255))
   \<and> list_all id_char (generate_unique_id (\<lambda>i. 255))
   \<and> is_valid_content_id (generate_unique_id (\<lambda>i. 255))"
  using generate_unique_id_valid [of "\<lambda>i. 255"] by simp

text \<open>
  Claim C2. The validator is to reject every string with a character outside
  \<^verbatim>\<open>[A-Za-z0-9_-]\<close>, a trailing newline included. On eight letters followed by a
  newline, a string with a character outside the class, it returns true.
\<close>

theorem is_valid_content_id_trailing_newline:
  "\<not> list_all id_char (''AAAAAAAA'' @ [CHR 0x0A])
   \<and> \<not> grammar_id (''AAAAAAAA'' @ [CHR 0x0A])
   \<and> is_valid_content_id (''AAAAAAAA'' @ [CHR 0x0A])"
  by (simp add: is_valid_content_id_def grammar_id_def id_char_def at_dollar_def)

section \<open>Properties of the store\<close>

subsection \<open>What the store operations do\<close>

lemma save_content_success:
  assumes "save_content wr now fs self cid c m = (fs', Inr u)"
  shows "\<exists>kvs. fs (filepath self) = Some (File (Parsable (JObj kvs)))
           \<and> wr = Completes
           \<and> fs' = fs(filepath self \<mapsto>
                File (Parsable (JObj (AList.update cid (content_record c m now) kvs))))"
proof -
  from assms have body: "save_content_body wr now fs self cid c m = (fs', Inr u)"
    by (auto simp: save_content_def split: prod.splits sum.splits if_splits)
  then obtain data where rd: "read_json fs (filepath self) = Inr data"
    by (auto simp: save_content_body_def split: sum.splits)
  with body obtain data' where
    si: "setitem data cid (content_record c m now) = Inr data'"
    and w: "write_json wr fs (filepath self) data' = (fs', Inr u)"
    by (auto simp: save_content_body_def split: sum.splits)
  from si obtain kvs where d: "data = JObj kvs"
    and d': "data' = JObj (AList.update cid (content_record c m now) kvs)"
    by (cases data) auto
  from rd d have f: "fs (filepath self) = Some (File (Parsable (JObj kvs)))"
    by (auto simp: read_json_def split: option.splits node.splits content.splits)
  from w f have "wr = Completes" "fs' = fs(filepath self \<mapsto> File (Parsable data'))"
    by (auto simp: write_json_def split: outcome.splits if_splits)
  with f d' show ?thesis by simp
qed

lemma save_content_Inl_cases:
  assumes "save_content wr now fs self cid c m = (fs', Inl e)"
  shows "fs' = fs \<or> (\<exists>s. wr = Breaks s \<and> e = StorageError
            \<and> fs' = fs(filepath self \<mapsto> File (Corrupt s)))"
  using assms
  by (auto simp: save_content_def save_content_body_def write_json_def is_IOError_def
      split: prod.splits sum.splits if_splits outcome.splits)


lemma get_content_missing:
  "fs (filepath self) = None \<Longrightarrow> get_content fs self cid = (fs, Inl StorageError)"
  by (simp add: get_content_def get_content_body_def read_json_def)

lemma get_content_corrupt:
  "fs (filepath self) = Some (File (Corrupt s)) \<Longrightarrow>
     get_content fs self cid = (fs, Inl StorageError)"
  by (simp add: get_content_def get_content_body_def read_json_def)

lemma get_content_no_access:
  "fs (filepath self) = Some NoAccess \<Longrightarrow>
     get_content fs self cid = (fs, Inl OtherOSError)"
  by (simp add: get_content_def get_content_body_def read_json_def)

lemma fst_get_content: "fst (get_content fs self cid) = fs"
  by (simp add: get_content_def split: sum.splits)



lemma new_ContentStore_filepath:
  "new_ContentStore cp wr fs path = (fs', Inr store) \<Longrightarrow> store = \<lparr>filepath = path\<rparr>"
  by (auto simp: new_ContentStore_def Let_def split: prod.splits sum.splits)


subsection \<open>A concrete ingestion\<close>

lemma b64char_0: "b64char 0 = CHR ''A''"
  by (simp add: b64char_def urlsafe_alphabet_def)

lemma generate_unique_id_zero: "generate_unique_id (\<lambda>i. 0) = ''AAAAAAAAAAA''"
  by (simp add: generate_unique_id_digits b64char_0)

lemma ingest_example:
  "handle_private_group_message Completes Completes Completes (\<lambda>i. 0) ''2024-05-01T12:00:00''
     Map.empty 1001 1001 42
   = ([default_filepath \<mapsto> File (Parsable (JObj
        [(''AAAAAAAAAAA'', content_record 1001 42 ''2024-05-01T12:00:00'')]))],
      Linked ''AAAAAAAAAAA'')"
  by (simp add: handle_private_group_message_def generate_unique_id_zero new_ContentStore_def
      ensure_file_exists_def read_json_def write_json_def save_content_def
      save_content_body_def Let_def)

subsection \<open>Round trip\<close>

text \<open>
  Ingestion succeeds whenever the store file is absent or holds a mapping and the
  writes complete; the identifier it returns is the generated one.
\<close>

lemma handle_private_group_message_absent:
  assumes "fs default_filepath = None"
  shows "handle_private_group_message cp Completes Completes src now fs pcid pcid message_id
           = (fs(default_filepath \<mapsto> File (Parsable (JObj
                [(generate_unique_id src, content_record pcid message_id now)]))),
              Linked (generate_unique_id src))"
  using assms
  by (simp add: handle_private_group_message_def new_ContentStore_def ensure_file_exists_def
      read_json_def write_json_def save_content_def save_content_body_def Let_def)

lemma handle_private_group_message_mapping:
  assumes "fs default_filepath = Some (File (Parsable (JObj kvs)))"
  shows "handle_private_group_message cp wr Completes src now fs pcid pcid message_id
           = (fs(default_filepath \<mapsto> File (Parsable (JObj
                (AList.update (generate_unique_id src)
                   (content_record pcid message_id now) kvs)))),
              Linked (generate_unique_id src))"
  using assms
  by (simp add: handle_private_group_message_def new_ContentStore_def ensure_file_exists_def
      read_json_def write_json_def save_content_def save_content_body_def Let_def)



subsection \<open>Frame properties\<close>

lemma save_example:
  "save_content Completes ''2024-05-02T08:30:00''
     [''content_store.json'' \<mapsto> File (Parsable (JObj
        [(''AAAAAAAAAAA'', content_record 1001 42 ''2024-05-01T12:00:00'')]))]
     \<lparr>filepath = ''content_store.json''\<rparr> ''BBBBBBBBBBB'' 1001 43
   = ([''content_store.json'' \<mapsto> File (Parsable (JObj
        [(''AAAAAAAAAAA'', content_record 1001 42 ''2024-05-01T12:00:00''),
         (''BBBBBBBBBBB'', content_record 1001 43 ''2024-05-02T08:30:00'')]))], Inr ())"
  by (simp add: save_content_def save_content_body_def read_json_def write_json_def)

text \<open>
  Claim C9. A \<open>save_content\<close> that succeeds found a mapping in the store file and
  leaves a mapping there in which \<open>content_id\<close> has the new record and every other
  key has the value it had (or is absent as before); every other file is as it was.
\<close>

theorem save_content_frame:
  assumes "save_content wr now fs self content_id chat_id message_id = (fs', Inr u)"
  shows "\<exists>kvs kvs'.
           fs (filepath self) = Some (File (Parsable (JObj kvs)))
         \<and> fs' (filepath self) = Some (File (Parsable (JObj kvs')))
         \<and> map_of kvs' content_id = Some (content_record chat_id message_id now)
         \<and> (\<forall>k. k \<noteq> content_id \<longrightarrow> map_of kvs' k = map_of kvs k)
         \<and> (\<forall>p. p \<noteq> filepath self \<longrightarrow> fs' p = fs p)"
proof -
  from save_content_success [OF assms] obtain kvs where
    f: "fs (filepath self) = Some (File (Parsable (JObj kvs)))"
    and f': "fs' = fs(filepath self \<mapsto> File (Parsable
               (JObj (AList.update content_id (content_record chat_id message_id now) kvs))))"
    by blast
  let ?kvs' = "AList.update content_id (content_record chat_id message_id now) kvs"
  have "fs' (filepath self) = Some (File (Parsable (JObj ?kvs')))"
    using f' by simp
  moreover have "map_of ?kvs' content_id = Some (content_record chat_id message_id now)"
    by (simp add: update_conv')
  moreover have "\<forall>k. k \<noteq> content_id \<longrightarrow> map_of ?kvs' k = map_of kvs k"
    by (simp add: update_conv')
  moreover have "\<forall>p. p \<noteq> filepath self \<longrightarrow> fs' p = fs p"
    using f' by simp
  ultimately show ?thesis using f by blast
qed

theorem save_content_frame_witness:
  "\<exists>kvs kvs'.
      [''content_store.json'' \<mapsto> File (Parsable (JObj
        [(''AAAAAAAAAAA'', content_record 1001 42 ''2024-05-01T12:00:00'')]))]
        ''content_store.json'' = Some (File (Parsable (JObj kvs)))
    \<and> [''content_store.json'' \<mapsto> File (Parsable (JObj
        [(''AAAAAAAAAAA'', content_record 1001 42 ''2024-05-01T12:00:00''),
         (''BBBBBBBBBBB'', content_record 1001 43 ''2024-05-02T08:30:00'')]))]
        ''content_store.json'' = Some (File (Parsable (JObj kvs')))
    \<and> map_of kvs' ''BBBBBBBBBBB'' = Some (content_record 1001 43 ''2024-05-02T08:30:00'')
    \<and> map_of kvs' ''AAAAAAAAAAA'' = map_of kvs ''AAAAAAAAAAA''"
  using save_content_frame [OF save_example] by fastforce

text \<open>
  Claim C10. \<open>get_content\<close> leaves the file system exactly as it found it, for every
  identifier and every state of the store file (parsable or not), whether it returns
  a record or raises.
\<close>

theorem get_content_read_only: "fst (get_content fs self content_id) = fs"
  by (simp add: get_content_def split: sum.splits)

theorem get_content_read_only_witness:
  "fst (get_content
     [''content_store.json'' \<mapsto> File (Parsable (JObj
        [(''AAAAAAAAAAA'', content_record 1001 42 ''2024-05-01T12:00:00'')]))]
     \<lparr>filepath = ''content_store.json''\<rparr> ''AAAAAAAAAAA'')
   = [''content_store.json'' \<mapsto> File (Parsable (JObj
        [(''AAAAAAAAAAA'', content_record 1001 42 ''2024-05-01T12:00:00'')]))]"
  using get_content_read_only
          [of "[''content_store.json'' \<mapsto> File (Parsable (JObj
                 [(''AAAAAAAAAAA'', content_record 1001 42 ''2024-05-01T12:00:00'')]))]"
              "\<lparr>filepath = ''content_store.json''\<rparr>" "''AAAAAAAAAAA''"]
  by simp

subsection \<open>Failures of \<open>save_content\<close>\<close>

text \<open>
  Claim C3, as stated, fails. The rewrite is \<^verbatim>\<open>open(path, 'w')\<close> followed by
  \<^verbatim>\<open>json.dump\<close>, in place. When the dump breaks after the file has been truncated,
  \<open>save_content\<close> raises \<open>StorageError\<close> and the store file holds the fragment written
  so far: the record stored before is gone, and the next \<open>get_content\<close> finds a file
  that does not parse.
\<close>

theorem save_content_failure_loses_records:
  "save_content (Breaks ''{'') ''2024-05-02T08:30:00''
     [''content_store.json'' \<mapsto> File (Parsable (JObj
        [(''AAAAAAAAAAA'', content_record 1001 42 ''2024-05-01T12:00:00'')]))]
     \<lparr>filepath = ''content_store.json''\<rparr> ''BBBBBBBBBBB'' 1001 43
   = ([''content_store.json'' \<mapsto> File (Corrupt ''{'')], Inl StorageError)
   \<and> get_content [''content_store.json'' \<mapsto> File (Corrupt ''{'')]
        \<lparr>filepath = ''content_store.json''\<rparr> ''AAAAAAAAAAA''
      = ([''content_store.json'' \<mapsto> File (Corrupt ''{'')], Inl StorageError)"
  by (simp add: save_content_def save_content_body_def read_json_def write_json_def
      is_IOError_def get_content_def get_content_body_def)

lemma save_content_missing_file:
  "save_content Completes ''2024-05-02T08:30:00'' Map.empty
     \<lparr>filepath = ''content_store.json''\<rparr> ''BBBBBBBBBBB'' 1001 43
   = (Map.empty, Inl StorageError)"
  by (simp add: save_content_def save_content_body_def read_json_def is_IOError_def)

text \<open>
  Claim C3, amended. When \<open>save_content\<close> fails, the file system is exactly as
  before, unless the rewrite itself broke after truncating the store file: then the
  failure is \<open>StorageError\<close>, the store file holds the fragment written so far (which
  does not parse), and every other file is as before. The rewrite is done in place,
  not through a temporary file.
\<close>

theorem save_content_failure_effect:
  assumes "save_content wr now fs self content_id chat_id message_id = (fs', Inl e)"
  shows "fs' = fs \<or> (\<exists>s. wr = Breaks s \<and> e = StorageError
            \<and> fs' = fs(filepath self \<mapsto> File (Corrupt s)))"
  using assms by (rule save_content_Inl_cases)

theorem save_content_failure_effect_witness:
  "save_content Completes ''2024-05-02T08:30:00'' Map.empty
     \<lparr>filepath = ''content_store.json''\<rparr> ''BBBBBBBBBBB'' 1001 43
   = (Map.empty, Inl StorageError)
   \<and> (Map.empty = (Map.empty :: fs)
      \<or> (\<exists>s. (Completes :: string outcome) = Breaks s \<and> StorageError = StorageError
            \<and> (Map.empty :: fs) = Map.empty(''content_store.json'' \<mapsto> File (Corrupt s))))"
  using save_content_failure_effect [OF save_content_missing_file] save_content_missing_file
  by simp

subsection \<open>Failures of \<open>get_content\<close>\<close>

text \<open>
  Claim C4. \<open>get_content\<close> is to raise \<open>StorageError\<close> when the store file is
  missing, unreadable or unparsable. On a store file that exists and cannot be opened
  it raises the \<^verbatim>\<open>OSError\<close> of \<^verbatim>\<open>open\<close> itself, which neither of its \<^verbatim>\<open>except\<close>
  clauses catches; \<open>save_content\<close>, in the same state, raises \<open>StorageError\<close>.
\<close>

theorem get_content_unreadable_medium:
  "get_content [''content_store.json'' \<mapsto> NoAccess]
     \<lparr>filepath = ''content_store.json''\<rparr> ''AAAAAAAAAAA''
   = ([''content_store.json'' \<mapsto> NoAccess], Inl OtherOSError)
   \<and> save_content Completes ''2024-05-02T08:30:00'' [''content_store.json'' \<mapsto> NoAccess]
        \<lparr>filepath = ''content_store.json''\<rparr> ''AAAAAAAAAAA'' 1001 43
      = ([''content_store.json'' \<mapsto> NoAccess], Inl StorageError)"
  by (simp add: get_content_def get_content_body_def read_json_def
      save_content_def save_content_body_def is_IOError_def)

subsection \<open>Validation before store access\<close>

text \<open>
  An identifier that the validator rejects is answered without any store access: the
  file system is returned as it was given.
\<close>

lemma handle_start_command_rejected:
  assumes "\<not> is_valid_content_id raw"
    and "chat_type \<noteq> ''group''" "chat_type \<noteq> ''supergroup''" "chat_type \<noteq> ''channel''"
  shows "handle_start_command cp wr fs chat_type (raw # rest) = (fs, InvalidLink)"
  using assms by (simp add: handle_start_command_def)


subsection \<open>Initialisation\<close>







subsection \<open>The invariant\<close>

lemma keys_valid_iff:
  "keys_valid n \<longleftrightarrow>
     (\<forall>j. n = Some (File (Parsable j)) \<longrightarrow>
        (\<exists>kvs. j = JObj kvs \<and> list_all grammar_id (map fst kvs)))"
  by (cases n rule: keys_valid.cases) simp_all

lemma keys_valid_simps [simp]:
  "keys_valid None" "keys_valid (Some NoAccess)" "keys_valid (Some (File (Corrupt s)))"
  by (simp_all add: keys_valid_iff)

lemma write_json_keys_valid:
  assumes "write_json w fs p (JObj kvs) = (fs', r)"
    and "list_all grammar_id (map fst kvs)" and "keys_valid (fs p)"
  shows "keys_valid (fs' p)"
  using assms by (auto simp: write_json_def split: if_splits outcome.splits)

lemma copy_file_elsewhere:
  "copy_file w fs src dst = (fs', r) \<Longrightarrow> p \<noteq> dst \<Longrightarrow> fs' p = fs p"
  by (auto simp: copy_file_def split: option.splits node.splits if_splits outcome.splits)

lemma ensure_file_exists_keys_valid:
  assumes "ensure_file_exists cp wr fs self = (fs', r)" and "keys_valid (fs (filepath self))"
  shows "keys_valid (fs' (filepath self))"
proof (cases "read_json fs (filepath self)")
  case (Inr j)
  with assms show ?thesis by (simp add: ensure_file_exists_def)
next
  case (Inl e)
  show ?thesis
  proof (cases "e = FileNotFoundError")
    case True
    with Inl assms(1) have "write_json wr fs (filepath self) (JObj []) = (fs', r)"
      by (simp add: ensure_file_exists_def)
    from write_json_keys_valid [OF this _ assms(2)] show ?thesis by simp
  next
    case nf: False
    show ?thesis
    proof (cases "e = JSONDecodeError")
      case False
      with nf Inl assms show ?thesis by (simp add: ensure_file_exists_def)
    next
      case True
      obtain fs1 r1 where
        c: "copy_file cp fs (filepath self) (filepath self @ ''.backup'') = (fs1, r1)"
        by (cases "copy_file cp fs (filepath self) (filepath self @ ''.backup'')")
      from copy_file_elsewhere [OF c, of "filepath self"]
      have same: "fs1 (filepath self) = fs (filepath self)" by simp
      show ?thesis
      proof (cases r1)
        case (Inl e')
        with True nf \<open>read_json fs (filepath self) = Inl e\<close> c assms(1) have "fs' = fs1"
          by (simp add: ensure_file_exists_def)
        with same assms(2) show ?thesis by simp
      next
        case (Inr u)
        with True nf \<open>read_json fs (filepath self) = Inl e\<close> c assms(1)
        have "write_json wr fs1 (filepath self) (JObj []) = (fs', r)"
          by (simp add: ensure_file_exists_def)
        from write_json_keys_valid [OF this] same assms(2) show ?thesis by simp
      qed
    qed
  qed
qed

lemma new_ContentStore_keys_valid:
  assumes "new_ContentStore cp wr fs path = (fs', r)" and "keys_valid (fs path)"
  shows "keys_valid (fs' path)"
proof -
  obtain r' where "ensure_file_exists cp wr fs \<lparr>filepath = path\<rparr> = (fs', r')"
    using assms(1)
    by (cases "ensure_file_exists cp wr fs \<lparr>filepath = path\<rparr>")
       (auto simp: new_ContentStore_def Let_def split: sum.splits)
  from ensure_file_exists_keys_valid [OF this] assms(2) show ?thesis by simp
qed

lemma update_keys_valid:
  "list_all grammar_id (map fst kvs) \<Longrightarrow> grammar_id k \<Longrightarrow>
     list_all grammar_id (map fst (AList.update k v kvs))"
  by (simp add: update_keys list_all_iff)

lemma save_content_keys_valid:
  assumes "save_content wr now fs self cid c m = (fs', r)"
    and "grammar_id cid" and "keys_valid (fs (filepath self))"
  shows "keys_valid (fs' (filepath self))"
proof (cases r)
  case (Inr u)
  with save_content_success [of wr now fs self cid c m fs' u] assms(1) obtain kvs where
    f: "fs (filepath self) = Some (File (Parsable (JObj kvs)))"
    and f': "fs' = fs(filepath self \<mapsto> File (Parsable
               (JObj (AList.update cid (content_record c m now) kvs))))"
    by blast
  from f assms(3) have "list_all grammar_id (map fst kvs)" by simp
  from update_keys_valid [OF this assms(2)] f' show ?thesis by simp
next
  case (Inl e)
  with save_content_Inl_cases [of wr now fs self cid c m fs' e] assms(1,3)
  show ?thesis by auto
qed

lemma handle_private_group_message_store_inv:
  assumes "store_inv fs"
  shows "store_inv (fst (handle_private_group_message cp wr wr' src now fs pcid chat msg))"
proof (cases "chat = pcid")
  case False
  with assms show ?thesis by (simp add: handle_private_group_message_def)
next
  case True
  obtain fs1 r1 where n: "new_ContentStore cp wr fs default_filepath = (fs1, r1)"
    by (cases "new_ContentStore cp wr fs default_filepath")
  from new_ContentStore_keys_valid [OF n] assms have k1: "keys_valid (fs1 default_filepath)"
    by (simp add: store_inv_def)
  show ?thesis
  proof (cases r1)
    case (Inl e)
    with True n k1 show ?thesis
      by (simp add: handle_private_group_message_def store_inv_def)
  next
    case (Inr store)
    with new_ContentStore_filepath n have p: "filepath store = default_filepath" by fastforce
    obtain fs2 r2 where
      s: "save_content wr' now fs1 store (generate_unique_id src) chat msg = (fs2, r2)"
      by (cases "save_content wr' now fs1 store (generate_unique_id src) chat msg")
    from save_content_keys_valid [OF s grammar_id_generate_unique_id] k1 p
    have "keys_valid (fs2 default_filepath)" by simp
    with True n Inr s show ?thesis
      by (cases r2) (simp_all add: handle_private_group_message_def store_inv_def Let_def)
  qed
qed

lemma handle_start_command_store_inv:
  assumes "store_inv fs"
  shows "store_inv (fst (handle_start_command cp wr fs chat_type args))"
proof -
  have *: "store_inv (fst (case new_ContentStore cp wr fs default_filepath of
                         (fs', Inl e) \<Rightarrow> (fs', StartRaised e)
                       | (fs', Inr store) \<Rightarrow>
                           (case get_content fs' store cid of
                              (fs'', Inl e) \<Rightarrow> (fs'', StartRaised e)
                            | (fs'', Inr r) \<Rightarrow> (fs'', Resolved r))))" for cid
  proof -
    obtain fs1 r1 where n: "new_ContentStore cp wr fs default_filepath = (fs1, r1)"
      by (cases "new_ContentStore cp wr fs default_filepath")
    from new_ContentStore_keys_valid [OF n] assms have k1: "store_inv fs1"
      by (simp add: store_inv_def)
    show ?thesis
    proof (cases r1)
      case (Inl e)
      with n k1 show ?thesis by simp
    next
      case (Inr store)
      have "fst (get_content fs1 store cid) = fs1" by (rule fst_get_content)
      with n Inr k1 show ?thesis
        by (cases "get_content fs1 store cid") (auto split: sum.splits)
    qed
  qed
  show ?thesis
    using assms * by (auto simp: handle_start_command_def split: list.splits)
qed

lemma step_store_inv: "store_inv fs \<Longrightarrow> store_inv (step pcid fs ev)"
  by (cases ev)
     (simp_all add: handle_private_group_message_store_inv handle_start_command_store_inv)

lemma run_store_inv: "store_inv fs \<Longrightarrow> store_inv (run pcid fs events)"
  unfolding run_def by (induction events arbitrary: fs) (simp_all add: step_store_inv)

lemma store_inv_keys:
  "store_inv fs \<Longrightarrow> list_all grammar_id (store_keys fs)"
  by (cases "fs default_filepath" rule: keys_valid.cases)
     (simp_all add: store_inv_def store_keys_def)

lemma list_all_grammar_id_accepted:
  "list_all grammar_id ks \<Longrightarrow> list_all is_valid_content_id ks"
  by (simp add: list_all_iff grammar_id_accepted)

text \<open>
  Claim C8. From a state in which the store file is absent or holds the empty mapping,
  after any history of ingestions and resolutions, with any outcomes of their writes,
  every key of the stored mapping is an identifier of the grammar, and so accepted by
  the validator; and each single operation preserves the invariant \<open>store_inv\<close>.
\<close>

theorem store_keys_always_valid:
  "(fs default_filepath = None \<or> fs default_filepath = Some (File (Parsable (JObj []))) \<longrightarrow>
      list_all grammar_id (store_keys (run pcid fs events))
      \<and> list_all is_valid_content_id (store_keys (run pcid fs events)))
   \<and> (store_inv fs \<longrightarrow> store_inv (step pcid fs ev))"
proof (intro conjI impI)
  assume "fs default_filepath = None \<or> fs default_filepath = Some (File (Parsable (JObj [])))"
  then have "store_inv fs" by (auto simp: store_inv_def)
  then have "store_inv (run pcid fs events)" by (rule run_store_inv)
  then show g: "list_all grammar_id (store_keys (run pcid fs events))"
    by (rule store_inv_keys)
  then show "list_all is_valid_content_id (store_keys (run pcid fs events))"
    by (rule list_all_grammar_id_accepted)
next
  assume "store_inv fs"
  then show "store_inv (step pcid fs ev)" by (rule step_store_inv)
qed

theorem store_keys_always_valid_witness:
  "Map.empty default_filepath = None
   \<and> store_keys (run 1001 Map.empty
        [Ingest Completes Completes Completes (\<lambda>i. 0) ''2024-05-01T12:00:00'' 1001 42])
      = [''AAAAAAAAAAA'']
   \<and> list_all grammar_id (store_keys (run 1001 Map.empty
        [Ingest Completes Completes Completes (\<lambda>i. 0) ''2024-05-01T12:00:00'' 1001 42]))
   \<and> store_inv Map.empty
   \<and> store_inv (step 1001 Map.empty
        (Ingest Completes Completes Completes (\<lambda>i. 0) ''2024-05-01T12:00:00'' 1001 42))"
  using store_keys_always_valid [of Map.empty 1001
      "[Ingest Completes Completes Completes (\<lambda>i. 0) ''2024-05-01T12:00:00'' 1001 42]"
      "Ingest Completes Completes Completes (\<lambda>i. 0) ''2024-05-01T12:00:00'' 1001 42"]
  by (simp add: store_inv_def run_def ingest_example store_keys_def)

end
